theory Spec2Isabelle
  imports Complex_Main "HOL-Library.Word" "HOL-Library.AList"
begin

section \<open>Python values used by \<open>movie-maker.py\<close>\<close>

text \<open>
  The exceptions that the modelled code can meet. \<open>OverflowError\<close> and \<open>ValueError\<close>
  are what \<open>int()\<close> raises on an infinite float and on a NaN, and \<open>OverflowError\<close> is
  also raised when an int too large for a double meets a float; \<open>ExternalError\<close> stands
  for any exception raised inside matplotlib, Pillow, librosa or MoviePy.
\<close>

datatype exn = OverflowError | ValueError | ExternalError string

text \<open>
  A Python \<open>float\<close> is an IEEE 754 double. Every finite double is a real number, so
  the finite values are embedded in \<open>real\<close>; the three special values are kept apart
  because \<open>int()\<close> raises on them.
\<close>

datatype pyfloat = Finite real | PosInf | NegInf | NaN

text \<open>\<open>int(x)\<close> on a float truncates toward zero.\<close>

definition py_trunc :: "real \<Rightarrow> int" where
  "py_trunc x = (if 0 \<le> x then \<lfloor>x\<rfloor> else \<lceil>x\<rceil>)"

fun py_int :: "pyfloat \<Rightarrow> exn + int" where
  "py_int (Finite x) = Inr (py_trunc x)"
| "py_int PosInf = Inl OverflowError"
| "py_int NegInf = Inl OverflowError"
| "py_int NaN = Inl ValueError"

text \<open>
  The result of an operation on doubles is the exact result rounded to the nearest
  double, a tie going to the double whose last bit is even. \<open>binade x\<close> is the exponent
  \<open>e\<close> with \<open>2^e \<le> |x| < 2^(e+1)\<close> and \<open>quantum x\<close> the distance between neighbouring
  doubles there: \<open>2^(e-52)\<close>, and \<open>2^(-1074)\<close> in the subnormal range. A result that
  rounds to \<open>2^1024\<close> or beyond is an infinity.
\<close>

definition round_half_even :: "real \<Rightarrow> int" where
  "round_half_even x =
     (let n = \<lfloor>x\<rfloor>; d = x - real_of_int n
      in if d < 1 / 2 then n else if 1 / 2 < d then n + 1 else if even n then n else n + 1)"

definition binade :: "real \<Rightarrow> int" where
  "binade x = \<lfloor>log 2 \<bar>x\<bar>\<rfloor>"

definition quantum :: "real \<Rightarrow> real" where
  "quantum x = 2 powr real_of_int (max (binade x) (- 1022) - 52)"

definition round_double :: "real \<Rightarrow> pyfloat" where
  "round_double x =
     (if x = 0 then Finite 0
      else let y = real_of_int (round_half_even (x / quantum x)) * quantum x
           in if 2 ^ 1024 \<le> \<bar>y\<bar> then (if 0 < x then PosInf else NegInf) else Finite y)"

text \<open>
  The conversion of an int operand to a double: Python raises \<open>OverflowError\<close> when the
  int is too large for one.
\<close>

definition py_float_of_int :: "int \<Rightarrow> exn + real" where
  "py_float_of_int k =
     (case round_double (real_of_int k) of
        Finite y \<Rightarrow> Inr y
      | _ \<Rightarrow> Inl OverflowError)"

text \<open>The product of a float and a finite double.\<close>

fun float_mul :: "pyfloat \<Rightarrow> real \<Rightarrow> pyfloat" where
  "float_mul (Finite x) y = round_double (x * y)"
| "float_mul PosInf y = (if 0 < y then PosInf else if y < 0 then NegInf else NaN)"
| "float_mul NegInf y = (if 0 < y then NegInf else if y < 0 then PosInf else NaN)"
| "float_mul NaN y = NaN"

text \<open>\<open>t * sample_rate\<close> with a float \<open>t\<close> and an int \<open>sample_rate\<close>.\<close>

definition float_mul_int :: "pyfloat \<Rightarrow> int \<Rightarrow> exn + pyfloat" where
  "float_mul_int t k =
     (case py_float_of_int k of
        Inl e \<Rightarrow> Inl e
      | Inr y \<Rightarrow> Inr (float_mul t y))"

text \<open>
  A slice \<open>xs[i:j]\<close> with step 1: a negative index counts from the end, and both
  indices are clamped to the sequence, so a slice never raises.
\<close>

definition slice_index :: "int \<Rightarrow> nat \<Rightarrow> nat" where
  "slice_index i n = (if i < 0 then nat (max 0 (i + int n)) else min (nat i) n)"

definition py_slice :: "'a list \<Rightarrow> int \<Rightarrow> int \<Rightarrow> 'a list" where
  "py_slice xs i j =
     (let a = slice_index i (length xs); b = slice_index j (length xs)
      in take (b - a) (drop a xs))"

section \<open>The audio windower (\<open>make_frame\<close>, lines 46 to 61)\<close>

text \<open>\<open>center_idx = int(t * sample_rate)\<close>\<close>

definition center_idx :: "pyfloat \<Rightarrow> int \<Rightarrow> exn + int" where
  "center_idx t sample_rate =
     (case float_mul_int t sample_rate of
        Inl e \<Rightarrow> Inl e
      | Inr p \<Rightarrow> py_int p)"

text \<open>
  \<open>window_size = int(sample_rate * 0.5)\<close>, with the same conversion and product as on
  line 46. Line 49 is reached only when line 46 has not raised, and then \<open>sample_rate\<close>
  has a double and half of it is finite: the last case below does not arise.
\<close>

definition window_size :: "int \<Rightarrow> int" where
  "window_size sample_rate =
     (case float_mul_int (Finite (1 / 2)) sample_rate of
        Inr (Finite p) \<Rightarrow> py_trunc p
      | _ \<Rightarrow> 0)"

text \<open>\<open>start_idx = max(0, center_idx - window_size//2)\<close>\<close>

definition start_idx :: "int \<Rightarrow> int \<Rightarrow> int" where
  "start_idx center sample_rate = max 0 (center - window_size sample_rate div 2)"

text \<open>\<open>end_idx = min(len(audio_data), start_idx + window_size)\<close>\<close>

definition end_idx :: "real list \<Rightarrow> int \<Rightarrow> int \<Rightarrow> int" where
  "end_idx audio_data start sample_rate =
     min (int (length audio_data)) (start + window_size sample_rate)"

text \<open>\<open>np.array([0, 0])\<close>\<close>

definition placeholder :: "real list" where
  "placeholder = [0, 0]"

text \<open>
  The segment that \<open>make_frame\<close> plots at time \<open>t\<close>. The only statement of these lines
  that can raise is \<open>int(t * sample_rate)\<close>, on line 46.
\<close>

definition audio_segment :: "pyfloat \<Rightarrow> int \<Rightarrow> real list \<Rightarrow> exn + real list" where
  "audio_segment t sample_rate audio_data =
     (case center_idx t sample_rate of
        Inl e \<Rightarrow> Inl e
      | Inr c \<Rightarrow>
          (let s = start_idx c sample_rate;
               e = end_idx audio_data s sample_rate;
               seg = (if e \<le> s then placeholder else py_slice audio_data s e)
           in Inr (if length seg < 2 then placeholder else seg)))"

section \<open>Images, arrays and the state of the process\<close>

text \<open>
  A decoded picture as Pillow holds it: its size and one value per pixel. A PNG written
  by matplotlib with a transparent background is an RGBA picture.
\<close>

type_synonym rgba = "8 word \<times> 8 word \<times> 8 word \<times> 8 word"

type_synonym rgb = "8 word \<times> 8 word \<times> 8 word"

record 'p image =
  width :: nat
  height :: nat
  pixel :: "nat \<Rightarrow> nat \<Rightarrow> 'p"

text \<open>A three-dimensional numpy array of \<open>uint8\<close>: its shape and its elements in row-major order.\<close>

record ndarray =
  shape :: "nat \<times> nat \<times> nat"
  data :: "8 word list"

text \<open>
  What matplotlib draws: the two plotting calls of \<open>make_frame\<close> each add one artist to
  the axes of the current figure.
\<close>

datatype artist =
    FillBetween "real list" "real list" "real list" string
  | Line2D "real list" "real list" string real

record figure =
  figsize :: "real \<times> real"
  dpi :: int
  patch_alpha :: "real option"
  axis_on :: bool
  artists :: "artist list"
  ylim :: "(real \<times> real) option"

text \<open>What the program writes to standard output, one value per \<open>print\<close>.\<close>

datatype printed =
    Text string
  | AudioLoaded nat int
  | AudioDuration pyfloat
  | FrameError pyfloat exn
  | VideoError exn
  | Traceback exn
  | TotalTime real

text \<open>
  The mutable state that the calls of the program share: the figures that pyplot keeps
  open, in the order of its registry (the last one is the current figure), the lines
  printed so far, and the number of readings taken from the clock.
\<close>

record world =
  plt_figs :: "(nat \<times> figure) list"
  stdout :: "printed list"
  time_reads :: nat

text \<open>A statement of the program: it runs in a world and either raises or returns a value.\<close>

type_synonym 'a io = "world \<Rightarrow> (exn + 'a) \<times> world"

definition io_return :: "'a \<Rightarrow> 'a io" where
  "io_return x w = (Inr x, w)"

definition io_raise :: "exn \<Rightarrow> 'a io" where
  "io_raise e w = (Inl e, w)"

definition io_lift :: "exn + 'a \<Rightarrow> 'a io" where
  "io_lift r w = (r, w)"

definition io_bind :: "'a io \<Rightarrow> ('a \<Rightarrow> 'b io) \<Rightarrow> 'b io" where
  "io_bind m f w = (case m w of (Inl e, w') \<Rightarrow> (Inl e, w') | (Inr x, w') \<Rightarrow> f x w')"

definition print :: "printed \<Rightarrow> unit io" where
  "print p w = (Inr (), w\<lparr>stdout := stdout w @ [p]\<rparr>)"

section \<open>The libraries behind \<open>make_frame\<close>\<close>

text \<open>
  matplotlib and Pillow are not part of the program. What they compute is a parameter of
  the model: whether creating a figure or adding an artist raises (an invalid colour, for
  one), the picture that \<open>savefig\<close> renders from a figure and \<open>Image.open\<close> decodes, or
  the exception raised instead, and the Lanczos filter that gives each pixel of a resized
  picture.
\<close>

record backend =
  figure_error :: "real \<times> real \<Rightarrow> int \<Rightarrow> exn option"
  artist_error :: "artist \<Rightarrow> exn option"
  savefig_png :: "figure \<Rightarrow> exn + rgba image"
  lanczos :: "rgba image \<Rightarrow> nat \<times> nat \<Rightarrow> nat \<Rightarrow> nat \<Rightarrow> rgba"

definition new_figure :: "real \<times> real \<Rightarrow> int \<Rightarrow> figure" where
  "new_figure fs d =
     \<lparr>figsize = fs, dpi = d, patch_alpha = None, axis_on = True, artists = [], ylim = None\<rparr>"

text \<open>pyplot numbers a new figure one above the highest number in use.\<close>

definition next_num :: "(nat \<times> figure) list \<Rightarrow> nat" where
  "next_num figs = fold max (map fst figs) 0 + 1"

text \<open>\<open>plt.figure(figsize=..., dpi=...)\<close>: the new figure becomes the current one.\<close>

definition plt_figure :: "backend \<Rightarrow> real \<times> real \<Rightarrow> int \<Rightarrow> nat io" where
  "plt_figure B fs d w =
     (case figure_error B fs d of
        Some e \<Rightarrow> (Inl e, w)
      | None \<Rightarrow>
          (let n = next_num (plt_figs w)
           in (Inr n, w\<lparr>plt_figs := plt_figs w @ [(n, new_figure fs d)]\<rparr>)))"

text \<open>
  \<open>plt.gcf()\<close>, which every pyplot call on the current figure goes through: with no
  figure open it creates one with the default size and resolution.
\<close>

definition gcf :: "backend \<Rightarrow> nat io" where
  "gcf B w =
     (if plt_figs w = [] then plt_figure B (64 / 10, 48 / 10) 100 w
      else (Inr (fst (last (plt_figs w))), w))"

definition update_figure :: "nat \<Rightarrow> (figure \<Rightarrow> figure) \<Rightarrow> unit io" where
  "update_figure n g w =
     (Inr (), w\<lparr>plt_figs := map (\<lambda>(k, fg). if k = n then (k, g fg) else (k, fg)) (plt_figs w)\<rparr>)"

text \<open>\<open>plt.axis('off')\<close>\<close>

definition plt_axis_off :: "backend \<Rightarrow> unit io" where
  "plt_axis_off B = io_bind (gcf B) (\<lambda>n. update_figure n (\<lambda>fg. fg\<lparr>axis_on := False\<rparr>))"

text \<open>\<open>fig.patch.set_alpha(a)\<close>\<close>

definition fig_patch_set_alpha :: "nat \<Rightarrow> real \<Rightarrow> unit io" where
  "fig_patch_set_alpha fig a = update_figure fig (\<lambda>fg. fg\<lparr>patch_alpha := Some a\<rparr>)"

definition add_artist :: "backend \<Rightarrow> artist \<Rightarrow> unit io" where
  "add_artist B a =
     io_bind (gcf B) (\<lambda>n.
       case artist_error B a of
         Some e \<Rightarrow> io_raise e
       | None \<Rightarrow> update_figure n (\<lambda>fg. fg\<lparr>artists := artists fg @ [a]\<rparr>))"

text \<open>\<open>plt.fill_between(x, y1, y2, color=...)\<close> and \<open>plt.plot(x, y, color=..., linewidth=...)\<close>\<close>

definition plt_fill_between ::
    "backend \<Rightarrow> real list \<Rightarrow> real list \<Rightarrow> real list \<Rightarrow> string \<Rightarrow> unit io" where
  "plt_fill_between B x y1 y2 color = add_artist B (FillBetween x y1 y2 color)"

definition plt_plot :: "backend \<Rightarrow> real list \<Rightarrow> real list \<Rightarrow> string \<Rightarrow> real \<Rightarrow> unit io" where
  "plt_plot B x y color linewidth = add_artist B (Line2D x y color linewidth)"

text \<open>\<open>plt.ylim(lo, hi)\<close>\<close>

definition plt_ylim :: "backend \<Rightarrow> real \<Rightarrow> real \<Rightarrow> unit io" where
  "plt_ylim B lo hi = io_bind (gcf B) (\<lambda>n. update_figure n (\<lambda>fg. fg\<lparr>ylim := Some (lo, hi)\<rparr>))"

text \<open>
  \<open>plt.savefig(buf, format='png', ...)\<close>, \<open>buf.seek(0)\<close> and \<open>Image.open(buf)\<close>: the
  current figure, rendered and decoded.
\<close>

definition plt_savefig :: "backend \<Rightarrow> rgba image io" where
  "plt_savefig B = io_bind (gcf B) (\<lambda>n w. (savefig_png B (snd (last (plt_figs w))), w))"

text \<open>\<open>plt.close(fig)\<close>\<close>

definition plt_close :: "nat \<Rightarrow> unit io" where
  "plt_close fig w = (Inr (), w\<lparr>plt_figs := filter (\<lambda>(k, fg). k \<noteq> fig) (plt_figs w)\<rparr>)"

text \<open>\<open>np.linspace(a, b, n)\<close>\<close>

definition np_linspace :: "real \<Rightarrow> real \<Rightarrow> nat \<Rightarrow> real list" where
  "np_linspace a b n = map (\<lambda>i. a + real i * ((b - a) / real (n - 1))) [0..<n]"

text \<open>\<open>pil_img.resize((w, h), Image.LANCZOS)\<close>: Pillow refuses a size below 1.\<close>

definition pil_resize :: "backend \<Rightarrow> rgba image \<Rightarrow> int \<times> int \<Rightarrow> exn + rgba image" where
  "pil_resize B img sz =
     (case sz of (w, h) \<Rightarrow>
        if w < 1 \<or> h < 1 then Inl ValueError
        else Inr \<lparr>width = nat w, height = nat h, pixel = lanczos B img (nat w, nat h)\<rparr>)"

text \<open>\<open>pil_img.convert('RGB')\<close> drops the alpha channel.\<close>

definition convert_rgb :: "rgba image \<Rightarrow> rgb image" where
  "convert_rgb img =
     \<lparr>width = width img, height = height img,
      pixel = (\<lambda>x y. case pixel img x y of (r, g, b, a) \<Rightarrow> (r, g, b))\<rparr>"

text \<open>\<open>np.array(img)\<close> of an RGB picture: rows, then columns, then the three channels.\<close>

definition np_array :: "rgb image \<Rightarrow> ndarray" where
  "np_array img =
     \<lparr>shape = (height img, width img, 3),
      data = concat (map (\<lambda>y. concat (map (\<lambda>x. case pixel img x y of (r, g, b) \<Rightarrow> [r, g, b])
                                         [0..<width img]))
                        [0..<height img])\<rparr>"

text \<open>\<open>np.zeros((a, b, c), dtype=np.uint8)\<close>: numpy refuses a negative dimension.\<close>

definition np_zeros :: "int \<times> int \<times> int \<Rightarrow> exn + ndarray" where
  "np_zeros sh =
     (case sh of (a, b, c) \<Rightarrow>
        if a < 0 \<or> b < 0 \<or> c < 0 then Inl ValueError
        else Inr \<lparr>shape = (nat a, nat b, nat c), data = replicate (nat a * nat b * nat c) 0\<rparr>)"

section \<open>The frame function (\<open>make_frame\<close>, lines 43 to 111)\<close>

text \<open>Lines 74 to 87: the plot of the segment in the chosen style.\<close>

definition draw_waveform ::
    "backend \<Rightarrow> string \<Rightarrow> string \<Rightarrow> real list \<Rightarrow> real list \<Rightarrow> unit io" where
  "draw_waveform B waveform_type waveform_color x seg =
     (if waveform_type = ''simple'' then
        io_bind (plt_fill_between B x seg (replicate (length x) 0) waveform_color)
          (\<lambda>_. plt_ylim B (- (8 / 10)) (8 / 10))
      else if waveform_type = ''mirror'' then
        io_bind (plt_fill_between B x seg (map uminus seg) waveform_color)
          (\<lambda>_. plt_ylim B (- (8 / 10)) (8 / 10))
      else if waveform_type = ''line'' then
        io_bind (plt_plot B x seg waveform_color 4)
          (\<lambda>_. plt_ylim B (- (8 / 10)) (8 / 10))
      else io_return ())"

text \<open>Lines 45 to 106: the body of the \<open>try\<close>.\<close>

definition make_frame_body ::
    "backend \<Rightarrow> real list \<Rightarrow> int \<Rightarrow> string \<Rightarrow> int \<Rightarrow> string \<Rightarrow> pyfloat \<Rightarrow> ndarray io" where
  "make_frame_body B audio_data sample_rate waveform_type resolution waveform_color t =
     io_bind (io_lift (audio_segment t sample_rate audio_data)) (\<lambda>seg.
     io_bind (plt_figure B (8, 8) (resolution div 8)) (\<lambda>fig.
     io_bind (plt_axis_off B) (\<lambda>_.
     io_bind (fig_patch_set_alpha fig 0) (\<lambda>_.
     io_bind (draw_waveform B waveform_type waveform_color
                (np_linspace 0 1 (length seg)) seg) (\<lambda>_.
     io_bind (plt_savefig B) (\<lambda>png.
     io_bind (io_lift (pil_resize B png (resolution, resolution))) (\<lambda>pil_img.
     let rgb_img = np_array (convert_rgb pil_img) in
     io_bind (plt_close fig) (\<lambda>_.
     io_return rgb_img))))))))"

text \<open>
  The whole function: an exception of the body is printed and a black frame is returned
  in its place. An exception raised by the handler itself leaves \<open>make_frame\<close>.
\<close>

definition make_frame ::
    "backend \<Rightarrow> real list \<Rightarrow> int \<Rightarrow> string \<Rightarrow> int \<Rightarrow> string \<Rightarrow> pyfloat \<Rightarrow> ndarray io" where
  "make_frame B audio_data sample_rate waveform_type resolution waveform_color t w =
     (case make_frame_body B audio_data sample_rate waveform_type resolution waveform_color t w of
        (Inr rgb_img, w') \<Rightarrow> (Inr rgb_img, w')
      | (Inl e, w') \<Rightarrow>
          io_bind (print (FrameError t e))
            (\<lambda>_. io_lift (np_zeros (resolution, resolution, 3))) w')"

section \<open>The frame as a function of its inputs\<close>

text \<open>
  The frame as a function of the inputs alone: what lines 45 to 106 compute when the
  figure they draw on is the one they have just created. \<open>waveform_figure\<close> is the state
  of that figure after lines 74 to 87. These two definitions do not take the state of the
  process; lemma \<open>make_frame_body_pure\<close> proves that \<open>make_frame_body\<close>, which does,
  returns the same value in every state.
\<close>

definition waveform_figure ::
    "backend \<Rightarrow> string \<Rightarrow> string \<Rightarrow> real list \<Rightarrow> real list \<Rightarrow> figure \<Rightarrow> exn + figure" where
  "waveform_figure B waveform_type waveform_color x seg fg =
     (let add = (\<lambda>a. case artist_error B a of
                        Some e \<Rightarrow> Inl e
                      | None \<Rightarrow> Inr (fg\<lparr>artists := artists fg @ [a],
                                          ylim := Some (- (8 / 10), 8 / 10)\<rparr>))
      in if waveform_type = ''simple'' then
           add (FillBetween x seg (replicate (length x) 0) waveform_color)
         else if waveform_type = ''mirror'' then
           add (FillBetween x seg (map uminus seg) waveform_color)
         else if waveform_type = ''line'' then add (Line2D x seg waveform_color 4)
         else Inr fg)"

definition pure_frame ::
    "backend \<Rightarrow> real list \<Rightarrow> int \<Rightarrow> string \<Rightarrow> int \<Rightarrow> string \<Rightarrow> pyfloat \<Rightarrow> exn + ndarray" where
  "pure_frame B audio_data sample_rate waveform_type resolution waveform_color t =
     (case audio_segment t sample_rate audio_data of
        Inl e \<Rightarrow> Inl e
      | Inr seg \<Rightarrow>
     (case figure_error B (8, 8) (resolution div 8) of
        Some e \<Rightarrow> Inl e
      | None \<Rightarrow>
     (case waveform_figure B waveform_type waveform_color (np_linspace 0 1 (length seg)) seg
             ((new_figure (8, 8) (resolution div 8))\<lparr>patch_alpha := Some 0, axis_on := False\<rparr>) of
        Inl e \<Rightarrow> Inl e
      | Inr fg \<Rightarrow>
     (case savefig_png B fg of
        Inl e \<Rightarrow> Inl e
      | Inr png \<Rightarrow>
     (case pil_resize B png (resolution, resolution) of
        Inl e \<Rightarrow> Inl e
      | Inr pil_img \<Rightarrow> Inr (np_array (convert_rgb pil_img)))))))"

section \<open>The command (\<open>create_waveform_video\<close>, lines 116 to 196)\<close>











section \<open>Example inputs\<close>

text \<open>
  Small concrete inputs on which the theorems below are evaluated: an eight-sample signal,
  a world with no open figure, libraries that succeed, and libraries that raise when the
  figure is saved or when the audio file is loaded.
\<close>

definition example_audio :: "real list" where
  "example_audio = [1 / 2, - 1 / 2, 1 / 4, - 1 / 4, 1 / 8, - 1 / 8, 1 / 2, 1 / 2]"

definition empty_world :: world where
  "empty_world = \<lparr>plt_figs = [], stdout = [], time_reads = 0\<rparr>"

definition example_backend :: backend where
  "example_backend =
     \<lparr>figure_error = (\<lambda>fs d. None),
      artist_error = (\<lambda>a. None),
      savefig_png = (\<lambda>fg. Inr \<lparr>width = 1, height = 1, pixel = (\<lambda>x y. (255, 69, 0, 255))\<rparr>),
      lanczos = (\<lambda>img sz x y. pixel img 0 0)\<rparr>"

definition failing_backend :: backend where
  "failing_backend = example_backend\<lparr>savefig_png := (\<lambda>fg. Inl (ExternalError ''savefig''))\<rparr>"



section \<open>Properties of rounding to a double\<close>

lemma round_half_even_le: "x \<le> real_of_int n \<Longrightarrow> round_half_even x \<le> n"
proof -
  assume a: "x \<le> real_of_int n"
  have f: "\<lfloor>x\<rfloor> \<le> n" using a by (simp add: floor_le_iff)
  show ?thesis
  proof (cases "\<lfloor>x\<rfloor> = n")
    case True
    then have "x = real_of_int n" using a by (metis of_int_floor_le order_antisym)
    then show ?thesis by (simp add: round_half_even_def)
  next
    case False
    with f have "\<lfloor>x\<rfloor> + 1 \<le> n" by simp
    then show ?thesis by (auto simp add: round_half_even_def Let_def)
  qed
qed

lemma round_half_even_ge: "real_of_int n \<le> x \<Longrightarrow> n \<le> round_half_even x"
proof -
  assume "real_of_int n \<le> x"
  then have "n \<le> \<lfloor>x\<rfloor>" by (simp add: le_floor_iff)
  then show ?thesis by (auto simp add: round_half_even_def Let_def)
qed

lemma round_half_even_of_int [simp]: "round_half_even (real_of_int n) = n"
  by (simp add: round_half_even_def)

lemma quantum_pos [simp]: "0 < quantum x"
  by (simp add: quantum_def)

lemma binade_eqI:
  assumes "2 powr real_of_int e \<le> \<bar>x\<bar>" and "\<bar>x\<bar> < 2 powr real_of_int (e + 1)"
  shows "binade x = e"
proof -
  have "(0 :: real) < 2 powr real_of_int e" by simp
  then have "0 < \<bar>x\<bar>" using assms(1) by linarith
  then show ?thesis
    unfolding binade_def using assms by (simp add: floor_log_eq_powr_iff add.commute)
qed

lemma binade_bounds:
  assumes "x \<noteq> 0"
  shows "2 powr real_of_int (binade x) \<le> \<bar>x\<bar>" and "\<bar>x\<bar> < 2 powr real_of_int (binade x + 1)"
proof -
  have "0 < \<bar>x\<bar>" using assms by simp
  from floor_log_eq_powr_iff [OF this, of 2 "binade x"]
  show "2 powr real_of_int (binade x) \<le> \<bar>x\<bar>" and "\<bar>x\<bar> < 2 powr real_of_int (binade x + 1)"
    by (simp_all add: binade_def add.commute)
qed

lemma binade_less:
  assumes "x \<noteq> 0" and "\<bar>x\<bar> < 2 powr real_of_int e"
  shows "binade x < e"
proof -
  have "2 powr real_of_int (binade x) < 2 powr real_of_int e"
    using binade_bounds(1) [OF assms(1)] assms(2) by linarith
  then show ?thesis by simp
qed


lemma quantum_powr: "quantum x = 2 powr real_of_int (max (binade x) (- 1022) - 52)"
  by (simp add: quantum_def)

lemma round_double_value:
  assumes "x \<noteq> 0" and "round_double x = Finite p"
  shows "p = real_of_int (round_half_even (x / quantum x)) * quantum x" and "\<bar>p\<bar> < 2 ^ 1024"
  using assms by (auto simp add: round_double_def Let_def split: if_splits)

lemma round_double_le:
  assumes "x \<noteq> 0" and "x \<le> real_of_int n * quantum x" and "round_double x = Finite p"
  shows "p \<le> real_of_int n * quantum x"
proof -
  have "x / quantum x \<le> real_of_int n" using assms(2) by (simp add: pos_divide_le_eq)
  then have "round_half_even (x / quantum x) \<le> n" by (rule round_half_even_le)
  then have "real_of_int (round_half_even (x / quantum x)) * quantum x \<le> real_of_int n * quantum x"
    by (simp add: mult_right_mono)
  then show ?thesis using round_double_value(1) [OF assms(1,3)] by simp
qed

lemma round_double_ge:
  assumes "x \<noteq> 0" and "real_of_int n * quantum x \<le> x" and "round_double x = Finite p"
  shows "real_of_int n * quantum x \<le> p"
proof -
  have "real_of_int n \<le> x / quantum x" using assms(2) by (simp add: pos_le_divide_eq)
  then have "n \<le> round_half_even (x / quantum x)" by (rule round_half_even_ge)
  then have "real_of_int n * quantum x \<le> real_of_int (round_half_even (x / quantum x)) * quantum x"
    by (simp add: mult_right_mono)
  then show ?thesis using round_double_value(1) [OF assms(1,3)] by simp
qed

lemma on_grid:
  assumes "x \<noteq> 0" and "max (binade x) (- 1022) - 52 \<le> j"
  shows "\<exists>n. real_of_int m * 2 powr real_of_int j = real_of_int n * quantum x"
proof -
  define e where "e = max (binade x) (- 1022) - 52"
  define d where "d = nat (j - e)"
  have j: "j = e + int d" using assms(2) by (simp add: d_def e_def)
  have "2 powr real_of_int j = 2 powr real_of_int e * 2 powr real d"
    by (simp add: j powr_add)
  also have "\<dots> = 2 ^ d * quantum x"
    by (simp add: quantum_def e_def powr_realpow)
  finally have "real_of_int m * 2 powr real_of_int j = real_of_int (m * 2 ^ d) * quantum x"
    by simp
  then show ?thesis by blast
qed

lemma int_on_grid:
  assumes "x \<noteq> 0" and "\<bar>x\<bar> < 2 ^ 53"
  shows "\<exists>n. real_of_int m = real_of_int n * quantum x"
proof -
  have "\<bar>x\<bar> < 2 powr real_of_int 53" using assms(2) by simp
  from binade_less [OF assms(1) this] have "max (binade x) (- 1022) - 52 \<le> 0" by simp
  from on_grid [OF assms(1) this, of m] show ?thesis by simp
qed

lemma half_int_on_grid:
  assumes "x \<noteq> 0" and "\<bar>x\<bar> < 2 ^ 52"
  shows "\<exists>n. real_of_int m / 2 = real_of_int n * quantum x"
proof -
  have "\<bar>x\<bar> < 2 powr real_of_int 52" using assms(2) by simp
  from binade_less [OF assms(1) this] have "max (binade x) (- 1022) - 52 \<le> - 1" by simp
  from on_grid [OF assms(1) this, of m] show ?thesis by (simp add: powr_minus field_simps)
qed

lemma round_double_finite:
  assumes "\<bar>x\<bar> \<le> 2 ^ 1023"
  shows "\<exists>p. round_double x = Finite p \<and> \<bar>p\<bar> \<le> 2 ^ 1023"
proof (cases "x = 0")
  case True
  then show ?thesis by (simp add: round_double_def)
next
  case False
  have "\<bar>x\<bar> < 2 powr real_of_int 1024" using assms by simp
  from binade_less [OF False this] have "max (binade x) (- 1022) - 52 \<le> 1023" by simp
  from on_grid [OF False this, of 1] obtain n where n: "2 ^ 1023 = real_of_int n * quantum x"
    by auto
  define y where "y = real_of_int (round_half_even (x / quantum x)) * quantum x"
  have "x / quantum x \<le> real_of_int n" using assms n by (simp add: pos_divide_le_eq)
  then have "round_half_even (x / quantum x) \<le> n" by (rule round_half_even_le)
  then have u: "y \<le> 2 ^ 1023" unfolding y_def n by (simp add: mult_right_mono)
  have "real_of_int (- n) \<le> x / quantum x" using assms n by (simp add: pos_le_divide_eq)
  then have "- n \<le> round_half_even (x / quantum x)" by (rule round_half_even_ge)
  then have "real_of_int (- n) * quantum x \<le> y" unfolding y_def by (simp only: mult_right_mono quantum_pos less_imp_le of_int_le_iff)
  then have l: "- (2 ^ 1023) \<le> y" using n by simp
  from u l have "\<bar>y\<bar> \<le> 2 ^ 1023" by simp
  then show ?thesis using False by (simp add: round_double_def Let_def y_def [symmetric])
qed

lemma round_double_exact:
  assumes "x = real_of_int n * quantum x" and "\<bar>x\<bar> < 2 ^ 1024"
  shows "round_double x = Finite x"
proof (cases "x = 0")
  case True
  then show ?thesis by (simp add: round_double_def)
next
  case False
  have "x / quantum x = real_of_int n"
    using assms(1) quantum_pos [of x] by (metis nonzero_mult_div_cancel_right order_less_irrefl)
  then have "real_of_int (round_half_even (x / quantum x)) * quantum x = x"
    using assms(1) by simp
  then show ?thesis using False assms(2) by (simp add: round_double_def Let_def)
qed

lemma round_double_of_int:
  assumes "\<bar>k\<bar> < 2 ^ 53"
  shows "round_double (real_of_int k) = Finite (real_of_int k)"
proof (cases "k = 0")
  case True
  then show ?thesis by (simp add: round_double_def)
next
  case False
  have b: "\<bar>real_of_int k\<bar> < 2 ^ 53" using assms by (metis of_int_abs of_int_less_numeral_power_cancel_iff)
  from int_on_grid [OF _ b, of k] False obtain n where
    "real_of_int k = real_of_int n * quantum (real_of_int k)" by auto
  moreover have "(2 :: real) ^ 53 \<le> 2 ^ 1024" by (rule power_increasing) simp_all
  then have "\<bar>real_of_int k\<bar> < 2 ^ 1024" using b by linarith
  ultimately show ?thesis by (rule round_double_exact)
qed

lemma round_double_nonneg:
  assumes "0 \<le> x" and "round_double x = Finite p"
  shows "0 \<le> p"
proof (cases "x = 0")
  case True
  with assms(2) show ?thesis by (simp add: round_double_def)
next
  case False
  from round_double_ge [OF False _ assms(2), of 0] assms(1) show ?thesis by simp
qed

lemma round_double_nonpos:
  assumes "x \<le> 0" and "round_double x = Finite p"
  shows "p \<le> 0"
proof (cases "x = 0")
  case True
  with assms(2) show ?thesis by (simp add: round_double_def)
next
  case False
  from round_double_le [OF False _ assms(2), of 0] assms(1) show ?thesis by simp
qed


lemma pow2_less_D: "2 powr real_of_int a < 2 powr real_of_int b \<Longrightarrow> a < b"
  by simp

lemma pow2_le_I: "a \<le> b \<Longrightarrow> 2 powr real_of_int a \<le> 2 powr real_of_int b"
  by simp

lemma pow2_nat: "2 powr real_of_int (int k) = 2 ^ k"
  by (simp add: powr_realpow)

lemma round_double_nearest:
  assumes "x \<noteq> 0" and "round_double x = Finite p"
  shows "\<bar>p - x\<bar> \<le> quantum x / 2"
proof -
  define z where "z = x / quantum x"
  have r: "\<bar>real_of_int (round_half_even z) - z\<bar> \<le> 1 / 2"
    unfolding round_half_even_def Let_def by (auto simp add: abs_le_iff)
  have "quantum x \<noteq> 0" using quantum_pos [of x] by linarith
  then have x: "x = z * quantum x" by (simp add: z_def)
  have "p - x = (real_of_int (round_half_even z) - z) * quantum x"
    using round_double_value(1) [OF assms] x by (simp add: z_def algebra_simps)
  moreover have "\<bar>quantum x\<bar> = quantum x" using quantum_pos [of x] by linarith
  ultimately have "\<bar>p - x\<bar> = \<bar>real_of_int (round_half_even z) - z\<bar> * quantum x"
    by (simp add: abs_mult)
  also have "\<dots> \<le> 1 / 2 * quantum x"
    using r by (rule mult_right_mono) (rule less_imp_le [OF quantum_pos])
  finally show ?thesis by simp
qed

lemma round_double_int_ge:
  assumes "0 \<le> N" and "N \<le> 2 ^ 53" and "real_of_int N \<le> x" and "round_double x = Finite p"
  shows "real_of_int N \<le> p"
proof (cases "x = 0")
  case True
  with assms show ?thesis by (simp add: round_double_def)
next
  case False
  show ?thesis
  proof (cases "\<bar>x\<bar> < 2 ^ 53")
    case True
    from int_on_grid [OF False True, of N] obtain n where
      n: "real_of_int N = real_of_int n * quantum x" by blast
    from round_double_ge [OF False _ assms(4), of n] assms(3) n show ?thesis by simp
  next
    case big: False
    have x0: "0 \<le> x" using assms(1,3) by linarith
    with big have xb: "2 ^ 53 \<le> x" by simp
    have "2 powr real_of_int (int 53) \<le> x" using xb by (simp only: pow2_nat)
    then have "2 powr real_of_int (int 53) < 2 powr real_of_int (binade x + 1)"
      using binade_bounds(2) [OF False] x0 by linarith
    from pow2_less_D [OF this] have b: "53 \<le> binade x" by simp
    then have "max (binade x) (- 1022) - 52 \<le> binade x" by simp
    from on_grid [OF False this, of 1] obtain n where
      n: "2 powr real_of_int (binade x) = real_of_int n * quantum x" by auto
    have "real_of_int n * quantum x \<le> x"
      using binade_bounds(1) [OF False] x0 n by simp
    from round_double_ge [OF False this assms(4)] n
    have "2 powr real_of_int (binade x) \<le> p" by simp
    moreover have "2 powr real_of_int (int 53) \<le> 2 powr real_of_int (binade x)"
      using b by (intro pow2_le_I) simp
    moreover have "real_of_int N \<le> 2 ^ 53"
      using assms(2) by (simp add: of_int_le_numeral_power_cancel_iff)
    then have "real_of_int N \<le> 2 powr real_of_int (int 53)" by (simp only: pow2_nat)
    ultimately show ?thesis by linarith
  qed
qed

lemma round_double_overflow:
  assumes "2 ^ 1024 \<le> x"
  shows "round_double x = PosInf"
proof -
  have "(0 :: real) < 2 ^ 1024" by simp
  then have x0: "0 < x" using assms by linarith
  then have nz: "x \<noteq> 0" by simp
  have "2 powr real_of_int (int 1024) \<le> x" using assms by (simp only: pow2_nat)
  then have "2 powr real_of_int (int 1024) < 2 powr real_of_int (binade x + 1)"
    using binade_bounds(2) [OF nz] x0 by linarith
  from pow2_less_D [OF this] have b: "1024 \<le> binade x" by simp
  then have "max (binade x) (- 1022) - 52 \<le> binade x" by simp
  from on_grid [OF nz this, of 1] obtain n where
    n: "2 powr real_of_int (binade x) = real_of_int n * quantum x" by auto
  define y where "y = real_of_int (round_half_even (x / quantum x)) * quantum x"
  have "real_of_int n \<le> x / quantum x"
    using binade_bounds(1) [OF nz] x0 n by (simp add: pos_le_divide_eq)
  then have "n \<le> round_half_even (x / quantum x)" by (rule round_half_even_ge)
  then have "real_of_int n * quantum x \<le> y"
    unfolding y_def by (simp add: mult_right_mono)
  moreover have "2 powr real_of_int (int 1024) \<le> 2 powr real_of_int (binade x)"
    using b by (intro pow2_le_I) simp
  then have "2 ^ 1024 \<le> 2 powr real_of_int (binade x)" by (simp only: pow2_nat)
  ultimately have "2 ^ 1024 \<le> y" using n by linarith
  then have "2 ^ 1024 \<le> \<bar>y\<bar>" by linarith
  then show ?thesis using nz x0 by (simp add: round_double_def Let_def y_def [symmetric])
qed

lemma round_double_eval:
  assumes "2 ^ k \<le> \<bar>x\<bar>" and "\<bar>x\<bar> < 2 ^ Suc k" and "k \<le> 52"
  shows "round_double x
           = Finite (real_of_int (round_half_even (x * 2 ^ (52 - k))) / 2 ^ (52 - k))"
proof -
  have "(0 :: real) < 2 ^ k" by simp
  then have "0 < \<bar>x\<bar>" using assms(1) by linarith
  then have nz: "x \<noteq> 0" by simp
  have "2 powr real_of_int (int k + 1) = 2 ^ Suc k"
    using pow2_nat [of "Suc k"] by (simp add: add.commute)
  then have "binade x = int k"
    using assms(1,2) by (intro binade_eqI) (simp_all only: pow2_nat)
  then have "quantum x = 2 powr (real k - 52)" by (simp add: quantum_def)
  also have "\<dots> = 2 powr (- real (52 - k))" using assms(3) by (simp add: of_nat_diff)
  also have "\<dots> = 1 / 2 ^ (52 - k)" by (simp add: powr_minus powr_realpow divide_inverse)
  finally have q: "quantum x = 1 / 2 ^ (52 - k)" .
  have "(2 :: real) ^ Suc k \<le> 2 ^ 1023" using assms(3) by (intro power_increasing) simp_all
  then have "\<bar>x\<bar> \<le> 2 ^ 1023" using assms(2) by linarith
  from round_double_finite [OF this] obtain p where p: "round_double x = Finite p" by blast
  from round_double_value(1) [OF nz p] show ?thesis by (simp add: p q)
qed

section \<open>Properties of the windower\<close>

lemma py_float_of_int_small:
  "\<bar>k\<bar> < 2 ^ 53 \<Longrightarrow> py_float_of_int k = Inr (real_of_int k)"
  by (simp add: py_float_of_int_def round_double_of_int)

lemma float_mul_int_small:
  "\<bar>k\<bar> < 2 ^ 53 \<Longrightarrow> float_mul_int (Finite t) k = Inr (round_double (t * real_of_int k))"
  by (simp add: float_mul_int_def py_float_of_int_small)

lemma float_mul_int_finite:
  assumes "\<bar>k\<bar> < 2 ^ 53" and "\<bar>t * real_of_int k\<bar> \<le> 2 ^ 1023"
  shows "\<exists>p. float_mul_int (Finite t) k = Inr (Finite p)
           \<and> round_double (t * real_of_int k) = Finite p"
  using round_double_finite [OF assms(2)] by (auto simp add: float_mul_int_small [OF assms(1)])

lemma py_trunc_nonneg: "0 \<le> x \<Longrightarrow> py_trunc x = \<lfloor>x\<rfloor>"
  by (simp add: py_trunc_def)

lemma py_trunc_nonpos: "x \<le> 0 \<Longrightarrow> py_trunc x = \<lceil>x\<rceil>"
  by (cases "x = 0") (simp_all add: py_trunc_def)

lemma py_trunc_magnitude:
  "\<bar>real_of_int (py_trunc x)\<bar> \<le> \<bar>x\<bar> \<and> \<bar>x\<bar> < \<bar>real_of_int (py_trunc x)\<bar> + 1
     \<and> 0 \<le> real_of_int (py_trunc x) * x"
proof (cases "0 \<le> x")
  case True
  then have "py_trunc x = \<lfloor>x\<rfloor>" by (rule py_trunc_nonneg)
  moreover have "0 \<le> \<lfloor>x\<rfloor>" using True by simp
  moreover have "real_of_int \<lfloor>x\<rfloor> \<le> x" "x < real_of_int \<lfloor>x\<rfloor> + 1" by linarith+
  ultimately show ?thesis using True by simp
next
  case False
  then have eq: "py_trunc x = \<lceil>x\<rceil>" by (simp add: py_trunc_def)
  have "\<lceil>x\<rceil> \<le> 0" using False by (simp add: ceiling_le_iff)
  moreover have "x \<le> real_of_int \<lceil>x\<rceil>" "real_of_int \<lceil>x\<rceil> < x + 1" by linarith+
  ultimately show ?thesis using False eq by (simp add: mult_nonpos_nonpos)
qed

lemma window_size_small:
  assumes "0 \<le> sample_rate" and "sample_rate < 2 ^ 53"
  shows "window_size sample_rate = sample_rate div 2"
proof -
  have k: "\<bar>sample_rate\<bar> < 2 ^ 53" using assms by simp
  define x where "x = 1 / 2 * real_of_int sample_rate"
  have "real_of_int sample_rate < 2 ^ 53"
    using assms(2) by (simp add: of_int_less_numeral_power_cancel_iff)
  then have small: "\<bar>x\<bar> < 2 ^ 52" using assms(1) by (simp add: x_def)
  have "round_double x = Finite x"
  proof (cases "x = 0")
    case True
    then show ?thesis by (simp add: round_double_def)
  next
    case False
    from half_int_on_grid [OF False small, of sample_rate] obtain n where
      "x = real_of_int n * quantum x" by (auto simp add: x_def)
    moreover have "(2 :: real) ^ 52 \<le> 2 ^ 1024" by (rule power_increasing) simp_all
    then have "\<bar>x\<bar> < 2 ^ 1024" using small by linarith
    ultimately show ?thesis by (rule round_double_exact)
  qed
  then have "window_size sample_rate = py_trunc x"
    by (simp add: window_size_def float_mul_int_small [OF k] x_def)
  also have "\<dots> = \<lfloor>real_of_int sample_rate / real_of_int 2\<rfloor>"
    using assms(1) by (simp add: py_trunc_def x_def)
  also have "\<dots> = sample_rate div 2" by (simp only: floor_divide_of_int_eq)
  finally show ?thesis .
qed

lemma window_size_ge0:
  assumes "0 \<le> sample_rate"
  shows "0 \<le> window_size sample_rate"
proof (cases "py_float_of_int sample_rate")
  case (Inl e)
  then show ?thesis by (simp add: window_size_def float_mul_int_def)
next
  case (Inr y)
  then have "round_double (real_of_int sample_rate) = Finite y"
    by (auto simp add: py_float_of_int_def split: pyfloat.splits)
  from round_double_nonneg [OF _ this] assms have y: "0 \<le> y" by simp
  show ?thesis
  proof (cases "round_double (1 / 2 * y)")
    case (Finite p)
    from round_double_nonneg [OF _ this] y have "0 \<le> p" by simp
    then show ?thesis using Inr Finite by (simp add: window_size_def float_mul_int_def py_trunc_def)
  qed (simp_all add: window_size_def float_mul_int_def Inr)
qed

lemma py_slice_inside:
  assumes "0 \<le> s" "s \<le> e" "e \<le> int (length xs)"
  shows "py_slice xs s e = take (nat (e - s)) (drop (nat s) xs)"
    and "length (py_slice xs s e) = nat (e - s)"
proof -
  have a: "slice_index s (length xs) = nat s" using assms by (simp add: slice_index_def)
  have b: "slice_index e (length xs) = nat e" using assms by (simp add: slice_index_def)
  have c: "nat e - nat s = nat (e - s)" using assms by simp
  show "py_slice xs s e = take (nat (e - s)) (drop (nat s) xs)"
    by (simp add: py_slice_def a b c)
  then show "length (py_slice xs s e) = nat (e - s)" using assms by simp
qed

lemma start_idx_nonneg: "0 \<le> start_idx c sample_rate"
  by (simp add: start_idx_def)

lemma end_idx_le_length: "end_idx audio_data s sample_rate \<le> int (length audio_data)"
  by (simp add: end_idx_def)

lemma audio_segment_center:
  assumes "center_idx t sample_rate = Inr c"
  shows "audio_segment t sample_rate audio_data =
     Inr (if end_idx audio_data (start_idx c sample_rate) sample_rate - start_idx c sample_rate < 2
          then placeholder
          else py_slice audio_data (start_idx c sample_rate)
                 (end_idx audio_data (start_idx c sample_rate) sample_rate))"
proof -
  define s where "s = start_idx c sample_rate"
  define e where "e = end_idx audio_data s sample_rate"
  have s0: "0 \<le> s" unfolding s_def by (rule start_idx_nonneg)
  have el: "e \<le> int (length audio_data)" unfolding e_def by (rule end_idx_le_length)
  have len: "s \<le> e \<Longrightarrow> length (py_slice audio_data s e) = nat (e - s)"
    using py_slice_inside(2) [OF s0 _ el] by simp
  have pl: "length placeholder = 2" by (simp add: placeholder_def)
  have "audio_segment t sample_rate audio_data =
      Inr (if e - s < 2 then placeholder else py_slice audio_data s e)"
  proof (cases "e \<le> s")
    case True
    then show ?thesis
      by (simp add: audio_segment_def assms Let_def s_def [symmetric] e_def [symmetric] pl)
  next
    case False
    then have "s \<le> e" by simp
    from len [OF this] False show ?thesis
      by (auto simp add: audio_segment_def assms Let_def s_def [symmetric] e_def [symmetric])
  qed
  then show ?thesis by (simp add: s_def e_def)
qed

lemma audio_segment_raises:
  "center_idx t sample_rate = Inl e \<Longrightarrow> audio_segment t sample_rate audio_data = Inl e"
  by (simp add: audio_segment_def)

lemma center_idx_product:
  assumes "float_mul_int t sample_rate = Inr (Finite p)"
  shows "center_idx t sample_rate = Inr (py_trunc p)"
  using assms by (simp add: center_idx_def)

lemma py_trunc_of_int [simp]: "py_trunc (real_of_int m) = m"
  by (simp add: py_trunc_def)

lemma center_idx_int_product:
  assumes "\<bar>k\<bar> < 2 ^ 53" and "t * real_of_int k = real_of_int m" and "\<bar>m\<bar> < 2 ^ 53"
  shows "center_idx (Finite t) k = Inr m"
  by (simp add: center_idx_def float_mul_int_small [OF assms(1)] assms(2)
      round_double_of_int [OF assms(3)])

lemma center_idx_in_range:
  assumes "0 \<le> t" and "t \<le> d" and "d * real_of_int k \<le> 2 ^ 1023" and "0 \<le> k" and "k < 2 ^ 53"
  shows "\<exists>c. center_idx (Finite t) k = Inr c"
proof -
  have k: "\<bar>k\<bar> < 2 ^ 53" using assms(4,5) by simp
  have "t * real_of_int k \<le> d * real_of_int k"
    using assms(2,4) by (simp add: mult_right_mono)
  moreover have "0 \<le> t * real_of_int k" using assms(1,4) by simp
  ultimately have "\<bar>t * real_of_int k\<bar> \<le> 2 ^ 1023" using assms(3) by linarith
  from float_mul_int_finite [OF k this] show ?thesis by (auto simp add: center_idx_def)
qed

lemma py_trunc_le_half:
  assumes "0 \<le> w" and "p \<le> real_of_int w / 2"
  shows "py_trunc p \<le> w div 2"
proof (cases "0 \<le> p")
  case True
  then have "py_trunc p = \<lfloor>p\<rfloor>" by (rule py_trunc_nonneg)
  moreover have "real_of_int \<lfloor>p\<rfloor> \<le> p" by simp
  ultimately have "real_of_int (py_trunc p) \<le> real_of_int w / 2" using assms(2) by linarith
  then have "real_of_int (2 * py_trunc p) \<le> real_of_int w" by simp
  then have "2 * py_trunc p \<le> w" by (simp only: of_int_le_iff)
  then show ?thesis by linarith
next
  case False
  then have "py_trunc p = \<lceil>p\<rceil>" by (simp add: py_trunc_def)
  moreover have "\<lceil>p\<rceil> \<le> 0" using False by (simp add: ceiling_le_iff)
  moreover have "0 \<le> w div 2" using assms(1) by simp
  ultimately show ?thesis by linarith
qed

lemma center_idx_FiniteD:
  assumes "center_idx (Finite t) sample_rate = Inr c"
  shows "\<exists>p. float_mul_int (Finite t) sample_rate = Inr (Finite p) \<and> c = py_trunc p"
proof -
  from assms obtain q where q: "float_mul_int (Finite t) sample_rate = Inr q" and "py_int q = Inr c"
    by (auto simp add: center_idx_def split: sum.splits)
  then show ?thesis by (cases q) auto
qed

section \<open>Properties of the frame function\<close>

lemma io_bind_Inr: "m w = (Inr x, w') \<Longrightarrow> io_bind m f w = f x w'"
  by (simp add: io_bind_def)

lemma io_bind_Inl: "m w = (Inl e, w') \<Longrightarrow> io_bind m f w = (Inl e, w')"
  by (simp add: io_bind_def)

lemma io_bind_lift:
  "io_bind (io_lift r) f w = (case r of Inl e \<Rightarrow> (Inl e, w) | Inr x \<Rightarrow> f x w)"
  by (simp add: io_bind_def io_lift_def split: sum.splits)

lemma gcf_cur:
  "plt_figs w = fs @ [(n, fg)] \<Longrightarrow> gcf B w = (Inr n, w)"
  by (simp add: gcf_def)

lemma update_figure_cur:
  "plt_figs w = fs @ [(n, fg)] \<Longrightarrow>
     \<exists>w'. update_figure n g w = (Inr (), w') \<and> (\<exists>fs'. plt_figs w' = fs' @ [(n, g fg)])
          \<and> stdout w' = stdout w"
  by (simp add: update_figure_def)

lemma draw_waveform_cur:
  assumes "plt_figs w = fs @ [(n, fg)]"
  shows "\<exists>w'. draw_waveform B wt col x seg w =
            (case waveform_figure B wt col x seg fg of Inl e \<Rightarrow> Inl e | Inr fg' \<Rightarrow> Inr (), w')
          \<and> (\<forall>fg'. waveform_figure B wt col x seg fg = Inr fg'
                \<longrightarrow> (\<exists>fs'. plt_figs w' = fs' @ [(n, fg')]))"
  using assms
  by (auto simp add: draw_waveform_def waveform_figure_def io_bind_def io_raise_def io_return_def gcf_def plt_figure_def update_figure_def
      plt_fill_between_def plt_plot_def add_artist_def plt_ylim_def Let_def split: option.splits)

lemma make_frame_body_pure:
  "fst (make_frame_body B a sr wt res col t w) = pure_frame B a sr wt res col t"
proof (cases "audio_segment t sr a")
  case (Inl e)
  then show ?thesis
    by (simp add: make_frame_body_def pure_frame_def io_bind_def io_lift_def)
next
  case seg: (Inr seg)
  show ?thesis
  proof (cases "figure_error B (8, 8) (res div 8)")
    case (Some e)
    then show ?thesis
      using seg by (simp add: make_frame_body_def pure_frame_def io_bind_def io_lift_def plt_figure_def)
  next
    case None
    define n where "n = next_num (plt_figs w)"
    define w1 where "w1 = w\<lparr>plt_figs := plt_figs w @ [(n, new_figure (8, 8) (res div 8))]\<rparr>"
    define fg0 where
      "fg0 = (new_figure (8, 8) (res div 8))\<lparr>patch_alpha := Some 0, axis_on := False\<rparr>"
    define x where "x = np_linspace 0 1 (length seg)"
    have s1: "plt_figure B (8, 8) (res div 8) w = (Inr n, w1)"
      using None by (simp add: plt_figure_def Let_def n_def w1_def)
    have c1: "plt_figs w1 = plt_figs w @ [(n, new_figure (8, 8) (res div 8))]"
      by (simp add: w1_def)
    obtain w2 fs2 where s2: "plt_axis_off B w1 = (Inr (), w2)"
      and c2: "plt_figs w2 = fs2 @ [(n, (new_figure (8, 8) (res div 8))\<lparr>axis_on := False\<rparr>)]"
      using update_figure_cur [OF c1, of "\<lambda>fg. fg\<lparr>axis_on := False\<rparr>"] gcf_cur [OF c1, of B]
      by (auto simp add: plt_axis_off_def io_bind_def)
    obtain w3 fs3 where s3: "fig_patch_set_alpha n 0 w2 = (Inr (), w3)"
      and c3: "plt_figs w3 = fs3 @ [(n, fg0)]"
      using update_figure_cur [OF c2, of "\<lambda>fg. fg\<lparr>patch_alpha := Some 0\<rparr>"]
      by (auto simp add: fig_patch_set_alpha_def fg0_def new_figure_def)
    obtain w4 where s4: "draw_waveform B wt col x seg w3 =
            (case waveform_figure B wt col x seg fg0 of Inl e \<Rightarrow> Inl e | Inr fg' \<Rightarrow> Inr (), w4)"
      and c4: "\<And>fg'. waveform_figure B wt col x seg fg0 = Inr fg'
                \<Longrightarrow> \<exists>fs'. plt_figs w4 = fs' @ [(n, fg')]"
      using draw_waveform_cur [OF c3, of B wt col x seg] by blast
    have start: "make_frame_body B a sr wt res col t w =
        io_bind (draw_waveform B wt col x seg) (\<lambda>_.
        io_bind (plt_savefig B) (\<lambda>png.
        io_bind (io_lift (pil_resize B png (res, res))) (\<lambda>pil_img.
        let rgb_img = np_array (convert_rgb pil_img) in
        io_bind (plt_close n) (\<lambda>_.
        io_return rgb_img)))) w3"
      unfolding make_frame_body_def x_def
      by (simp add: io_bind_lift seg
          io_bind_Inr [where m = "plt_figure B (8, 8) (res div 8)", OF s1]
          io_bind_Inr [where m = "plt_axis_off B", OF s2]
          io_bind_Inr [where m = "fig_patch_set_alpha n 0", OF s3])
    have pure: "pure_frame B a sr wt res col t =
     (case waveform_figure B wt col x seg fg0 of
        Inl e \<Rightarrow> Inl e
      | Inr fg \<Rightarrow>
     (case savefig_png B fg of
        Inl e \<Rightarrow> Inl e
      | Inr png \<Rightarrow>
     (case pil_resize B png (res, res) of
        Inl e \<Rightarrow> Inl e
      | Inr pil_img \<Rightarrow> Inr (np_array (convert_rgb pil_img)))))"
      using seg None by (simp add: pure_frame_def x_def fg0_def)
    show ?thesis
    proof (cases "waveform_figure B wt col x seg fg0")
      case (Inl e)
      with s4 have "draw_waveform B wt col x seg w3 = (Inl e, w4)" by simp
      then show ?thesis
        by (simp add: start pure Inl io_bind_Inl [where m = "draw_waveform B wt col x seg"])
    next
      case fg: (Inr fg')
      from c4 [OF fg] obtain fs4 where c4': "plt_figs w4 = fs4 @ [(n, fg')]" by blast
      have s5: "plt_savefig B w4 = (savefig_png B fg', w4)"
        using gcf_cur [OF c4', of B] by (simp add: plt_savefig_def io_bind_def c4')
      from s4 fg have s4': "draw_waveform B wt col x seg w3 = (Inr (), w4)" by simp
      note b4 = io_bind_Inr [where m = "draw_waveform B wt col x seg", OF s4']
      have b6: "io_bind (plt_close n) f w' = f () (w'\<lparr>plt_figs := filter (\<lambda>(k, fg). k \<noteq> n) (plt_figs w')\<rparr>)"
        for w' and f :: "unit \<Rightarrow> ndarray io" by (simp add: plt_close_def io_bind_def)
      show ?thesis
      proof (cases "savefig_png B fg'")
        case (Inl e)
        with s5 have "plt_savefig B w4 = (Inl e, w4)" by simp
        then show ?thesis
          by (simp add: start pure fg Inl b4 io_bind_Inl [where m = "plt_savefig B"])
      next
        case png: (Inr png)
        with s5 have s5': "plt_savefig B w4 = (Inr png, w4)" by simp
        show ?thesis
          by (simp add: start pure fg png b4 io_bind_Inr [where m = "plt_savefig B", OF s5']
              io_bind_lift b6 io_return_def split: sum.splits)
      qed
    qed
  qed
qed

lemma make_frame_fst:
  "fst (make_frame B a sr wt res col t w) =
     (case pure_frame B a sr wt res col t of
        Inr img \<Rightarrow> Inr img
      | Inl e \<Rightarrow> np_zeros (res, res, 3))"
proof -
  obtain r w' where b: "make_frame_body B a sr wt res col t w = (r, w')"
    by (cases "make_frame_body B a sr wt res col t w")
  then have "r = pure_frame B a sr wt res col t"
    using make_frame_body_pure [of B a sr wt res col t w] by simp
  with b show ?thesis
    by (simp add: make_frame_def io_bind_def print_def io_lift_def split: sum.splits)
qed

lemma length_np_array: "length (data (np_array img)) = height img * width img * 3"
proof -
  have px: "length (case p of (r, g, b) \<Rightarrow> [r, g, b]) = 3" for p :: rgb
    by (cases p) auto
  show ?thesis
    by (simp add: np_array_def length_concat comp_def px sum_list_triv)
qed

lemma pure_frame_shape:
  assumes "pure_frame B a sr wt res col t = Inr img"
  shows "shape img = (nat res, nat res, 3) \<and> length (data img) = nat res * nat res * 3"
proof -
  from assms obtain png pil where p: "pil_resize B png (res, res) = Inr pil"
    and i: "img = np_array (convert_rgb pil)"
    by (auto simp add: pure_frame_def split: sum.splits option.splits)
  from p have "width pil = nat res" "height pil = nat res"
    by (auto simp add: pil_resize_def split: if_splits)
  then show ?thesis
    by (simp add: i length_np_array) (simp add: np_array_def convert_rgb_def)
qed

lemma np_zeros_shape:
  "0 \<le> res \<Longrightarrow> np_zeros (res, res, 3) =
     Inr \<lparr>shape = (nat res, nat res, 3), data = replicate (nat res * nat res * 3) 0\<rparr>"
  by (simp add: np_zeros_def)

lemma io_bind_Inr_elim:
  assumes "io_bind m f w = (Inr y, w')"
  obtains x w1 where "m w = (Inr x, w1)" and "f x w1 = (Inr y, w')"
  using assms by (auto simp add: io_bind_def split: sum.splits prod.splits)

lemma plt_ylim_sets:
  assumes "plt_ylim B lo hi w = (Inr u, w')"
  shows "plt_figs w' \<noteq> [] \<and> ylim (snd (last (plt_figs w'))) = Some (lo, hi)"
proof -
  from assms obtain n w1 where g: "gcf B w = (Inr n, w1)"
    and u: "update_figure n (\<lambda>fg. fg\<lparr>ylim := Some (lo, hi)\<rparr>) w1 = (Inr u, w')"
    unfolding plt_ylim_def by (rule io_bind_Inr_elim)
  from g have "\<exists>fs fg. plt_figs w1 = fs @ [(n, fg)]"
  proof (cases "plt_figs w = []")
    case True
    with g show ?thesis
      by (auto simp add: gcf_def plt_figure_def Let_def split: option.splits)
  next
    case False
    then obtain fs p where "plt_figs w = fs @ [p]" by (cases "plt_figs w" rule: rev_cases) auto
    with g show ?thesis by (cases p) (auto simp add: gcf_def)
  qed
  then obtain fs fg where "plt_figs w1 = fs @ [(n, fg)]" by blast
  with u show ?thesis by (auto simp add: update_figure_def)
qed

section \<open>Properties of the command\<close>







section \<open>Claims about the windower\<close>

text \<open>
  Claim C1 says that the centre index is \<open>round(t * sample_rate)\<close>, the nearest integer
  to the product. The code converts with \<open>int()\<close>, which truncates. At \<open>t = 5/8192\<close>
  and 44100 Hz the product is the double 26.916015625, whose nearest integer is 27, and
  the code computes 26.
\<close>

theorem center_idx_not_nearest:
  "center_idx (Finite (5 / 8192)) 44100 = Inr 26 \<and> round (5 / 8192 * real_of_int 44100) = 27"
proof -
  have "round_double (5 / 8192 * real_of_int 44100) = Finite (55125 / 2048)"
    using round_double_eval [of 4 "5 / 8192 * real_of_int 44100"]
    by (simp add: round_half_even_def)
  then have "center_idx (Finite (5 / 8192)) 44100 = Inr 26"
    by (simp add: center_idx_def float_mul_int_small py_trunc_def)
  then show ?thesis by (simp add: round_def)
qed

text \<open>
  C1 as amended: whenever the double product \<open>p = t * sample_rate\<close> is finite, the centre
  index is \<open>int(p)\<close>, the product truncated toward zero: the integer \<open>c\<close> of the same
  sign as \<open>p\<close> with \<open>|c| \<le> |p| < |c| + 1\<close>. The product is finite, and within half a
  quantum of the exact one, when the sample rate is below \<open>2^53\<close> in magnitude and the
  exact product at most \<open>2^1023\<close>.
\<close>

theorem center_idx_truncates:
  "(\<forall>p. float_mul_int (Finite t) sample_rate = Inr (Finite p)
        \<longrightarrow> (\<exists>c. center_idx (Finite t) sample_rate = Inr c
               \<and> \<bar>real_of_int c\<bar> \<le> \<bar>p\<bar> \<and> \<bar>p\<bar> < \<bar>real_of_int c\<bar> + 1
               \<and> 0 \<le> real_of_int c * p))
   \<and> (\<bar>sample_rate\<bar> < 2 ^ 53 \<and> \<bar>t * real_of_int sample_rate\<bar> \<le> 2 ^ 1023
        \<longrightarrow> (\<exists>p. float_mul_int (Finite t) sample_rate = Inr (Finite p)
               \<and> \<bar>p - t * real_of_int sample_rate\<bar> \<le> quantum (t * real_of_int sample_rate) / 2))"
proof (intro conjI allI impI)
  fix p
  assume "float_mul_int (Finite t) sample_rate = Inr (Finite p)"
  then have "center_idx (Finite t) sample_rate = Inr (py_trunc p)" by (rule center_idx_product)
  then show "\<exists>c. center_idx (Finite t) sample_rate = Inr c
               \<and> \<bar>real_of_int c\<bar> \<le> \<bar>p\<bar> \<and> \<bar>p\<bar> < \<bar>real_of_int c\<bar> + 1
               \<and> 0 \<le> real_of_int c * p"
    using py_trunc_magnitude [of p] by simp
next
  assume a: "\<bar>sample_rate\<bar> < 2 ^ 53 \<and> \<bar>t * real_of_int sample_rate\<bar> \<le> 2 ^ 1023"
  then obtain p where p: "float_mul_int (Finite t) sample_rate = Inr (Finite p)"
    and r: "round_double (t * real_of_int sample_rate) = Finite p"
    using float_mul_int_finite by blast
  have "\<bar>p - t * real_of_int sample_rate\<bar> \<le> quantum (t * real_of_int sample_rate) / 2"
  proof (cases "t * real_of_int sample_rate = 0")
    case True
    with r have "p = 0" by (simp add: round_double_def)
    with True have "\<bar>p - t * real_of_int sample_rate\<bar> = 0" by linarith
    moreover have "0 \<le> quantum (t * real_of_int sample_rate) / 2"
      using quantum_pos [of "t * real_of_int sample_rate"] by linarith
    ultimately show ?thesis by linarith
  next
    case False
    from round_double_nearest [OF False r] show ?thesis .
  qed
  with p show "\<exists>p. float_mul_int (Finite t) sample_rate = Inr (Finite p)
               \<and> \<bar>p - t * real_of_int sample_rate\<bar> \<le> quantum (t * real_of_int sample_rate) / 2"
    by blast
qed

text \<open>
  The amended C1 at \<open>t = 1.0 / 30\<close>, the double \<open>4803839602528529 / 2^57\<close>, and
  44100 Hz: the exact product lies just below 1470, the double product is 1470, and so is
  the centre index.
\<close>

theorem center_idx_truncates_witness:
  "float_mul_int (Finite (4803839602528529 / 2 ^ 57)) 44100 = Inr (Finite 1470)
   \<and> center_idx (Finite (4803839602528529 / 2 ^ 57)) 44100 = Inr 1470
   \<and> \<bar>1470 - 4803839602528529 / 2 ^ 57 * real_of_int 44100\<bar>
       \<le> quantum (4803839602528529 / 2 ^ 57 * real_of_int 44100) / 2"
proof -
  have "round_double (4803839602528529 / 2 ^ 57 * real_of_int 44100) = Finite 1470"
    using round_double_eval [of 10 "4803839602528529 / 2 ^ 57 * real_of_int 44100"]
    by (simp add: round_half_even_def)
  then have p: "float_mul_int (Finite (4803839602528529 / 2 ^ 57)) 44100 = Inr (Finite 1470)"
    by (simp add: float_mul_int_small)
  note inst = center_idx_truncates [of "4803839602528529 / 2 ^ 57" 44100]
  from inst p
  obtain c where "center_idx (Finite (4803839602528529 / 2 ^ 57)) 44100 = Inr c"
    and "\<bar>real_of_int c\<bar> \<le> 1470" and "1470 < \<bar>real_of_int c\<bar> + 1" and "0 \<le> real_of_int c * 1470"
    by auto
  moreover from this have "c = 1470" by (auto simp add: abs_if split: if_splits)
  moreover have "\<bar>44100 :: int\<bar> < 2 ^ 53
      \<and> \<bar>4803839602528529 / 2 ^ 57 * real_of_int 44100\<bar> \<le> 2 ^ 1023"
    by simp
  with inst p have "\<bar>1470 - 4803839602528529 / 2 ^ 57 * real_of_int 44100\<bar>
       \<le> quantum (4803839602528529 / 2 ^ 57 * real_of_int 44100) / 2"
    by auto
  ultimately show ?thesis using p by simp
qed

text \<open>
  Claim C2 says that the windower never raises on \<open>[0, audio_duration]\<close> and returns the
  two-zero placeholder for every out-of-range \<open>t\<close>, negative or far beyond the end. For a
  negative \<open>t\<close> the start index is clamped to 0 and the leading window of the signal is
  returned: at \<open>t = -1\<close>, 8 Hz and eight samples, the first four samples come back.
\<close>

theorem negative_time_not_placeholder:
  "audio_segment (Finite (- 1)) 8 [1 / 2, - 1 / 2, 1 / 4, - 1 / 4, 1 / 8, - 1 / 8, 1 / 2, 1 / 2]
     = Inr [1 / 2, - 1 / 2, 1 / 4, - 1 / 4]
   \<and> [1 / 2, - 1 / 2, 1 / 4, - 1 / 4] \<noteq> placeholder"
proof -
  have "center_idx (Finite (- 1)) 8 = Inr (- 8)"
    by (rule center_idx_int_product) simp_all
  from audio_segment_center [OF this] show ?thesis
    by (simp add: start_idx_def end_idx_def window_size_small py_slice_def slice_index_def
        placeholder_def)
qed

text \<open>
  C2 as amended, for a sample rate from 0 to below \<open>2^53\<close>: the windower raises for no
  \<open>t\<close> in \<open>[0, audio_duration]\<close>, whatever the signal, as long as
  \<open>audio_duration * sample_rate\<close> is at most \<open>2^1023\<close>. A \<open>t\<close> so far beyond the end
  that \<open>t * sample_rate \<ge> signal_length + window_size // 2\<close> yields the placeholder while
  the product is at most \<open>2^1023\<close> (for a signal of fewer than \<open>2^52\<close> samples), and
  raises \<open>OverflowError\<close> on line 46 when the product reaches \<open>2^1024\<close>. A negative
  \<open>t\<close> with a product of at least \<open>-2^1023\<close> yields the leading window
  \<open>audio_data[0:window_size]\<close> when it has at least two samples, the placeholder
  otherwise.
\<close>

theorem audio_segment_out_of_range:
  assumes "0 \<le> sample_rate" and "sample_rate < 2 ^ 53"
  shows "(0 \<le> t \<and> t \<le> audio_duration \<and> audio_duration * real_of_int sample_rate \<le> 2 ^ 1023
          \<longrightarrow> (\<exists>seg. audio_segment (Finite t) sample_rate audio_data = Inr seg))
   \<and> (length audio_data < 2 ^ 52
        \<and> real (length audio_data) + real_of_int (window_size sample_rate div 2)
            \<le> t * real_of_int sample_rate
        \<and> t * real_of_int sample_rate \<le> 2 ^ 1023
      \<longrightarrow> audio_segment (Finite t) sample_rate audio_data = Inr placeholder)
   \<and> (2 ^ 1024 \<le> t * real_of_int sample_rate
      \<longrightarrow> audio_segment (Finite t) sample_rate audio_data = Inl OverflowError)
   \<and> (t < 0 \<and> - (2 ^ 1023) \<le> t * real_of_int sample_rate
      \<longrightarrow> audio_segment (Finite t) sample_rate audio_data =
            Inr (if min (int (length audio_data)) (window_size sample_rate) < 2 then placeholder
                 else take (nat (window_size sample_rate)) audio_data))"
proof (intro conjI impI)
  assume "0 \<le> t \<and> t \<le> audio_duration \<and> audio_duration * real_of_int sample_rate \<le> 2 ^ 1023"
  with assms obtain c where "center_idx (Finite t) sample_rate = Inr c"
    using center_idx_in_range [of t audio_duration sample_rate] by blast
  from audio_segment_center [OF this]
  show "\<exists>seg. audio_segment (Finite t) sample_rate audio_data = Inr seg" by blast
next
  assume a: "length audio_data < 2 ^ 52
        \<and> real (length audio_data) + real_of_int (window_size sample_rate div 2)
            \<le> t * real_of_int sample_rate
        \<and> t * real_of_int sample_rate \<le> 2 ^ 1023"
  define w where "w = window_size sample_rate"
  define N where "N = int (length audio_data) + w div 2"
  have k: "\<bar>sample_rate\<bar> < 2 ^ 53" using assms by simp
  have w: "w = sample_rate div 2" using assms by (simp add: w_def window_size_small)
  have w2: "0 \<le> w div 2" "w div 2 < 2 ^ 52" using assms w by simp_all
  have N0: "0 \<le> N" using w2 by (simp add: N_def)
  have "int (length audio_data) < 2 ^ 52" using a by (simp add: of_nat_less_numeral_power_cancel_iff)
  then have N53: "N \<le> 2 ^ 53" using w2 by (simp add: N_def)
  have Nx: "real_of_int N \<le> t * real_of_int sample_rate" using a by (simp add: N_def w_def)
  then have "0 \<le> t * real_of_int sample_rate" using N0 by linarith
  then have "\<bar>t * real_of_int sample_rate\<bar> \<le> 2 ^ 1023" using a by simp
  from float_mul_int_finite [OF k this] obtain p where
    p: "float_mul_int (Finite t) sample_rate = Inr (Finite p)"
    and r: "round_double (t * real_of_int sample_rate) = Finite p" by blast
  from round_double_int_ge [OF N0 N53 Nx r] have Np: "real_of_int N \<le> p" .
  then have "0 \<le> p" using N0 by linarith
  then have "py_trunc p = \<lfloor>p\<rfloor>" by (rule py_trunc_nonneg)
  moreover have "N \<le> \<lfloor>p\<rfloor>" using Np by (simp add: le_floor_iff)
  ultimately have c: "N \<le> py_trunc p" by simp
  have ci: "center_idx (Finite t) sample_rate = Inr (py_trunc p)"
    using p by (rule center_idx_product)
  have "int (length audio_data) \<le> start_idx (py_trunc p) sample_rate"
    using c by (simp add: start_idx_def N_def w_def)
  then have "end_idx audio_data (start_idx (py_trunc p) sample_rate) sample_rate
      - start_idx (py_trunc p) sample_rate < 2"
    by (simp add: end_idx_def)
  then show "audio_segment (Finite t) sample_rate audio_data = Inr placeholder"
    by (simp add: audio_segment_center [OF ci])
next
  assume "2 ^ 1024 \<le> t * real_of_int sample_rate"
  then have "round_double (t * real_of_int sample_rate) = PosInf" by (rule round_double_overflow)
  moreover have "\<bar>sample_rate\<bar> < 2 ^ 53" using assms by simp
  ultimately have "center_idx (Finite t) sample_rate = Inl OverflowError"
    by (simp add: center_idx_def float_mul_int_small)
  then show "audio_segment (Finite t) sample_rate audio_data = Inl OverflowError"
    by (rule audio_segment_raises)
next
  assume a: "t < 0 \<and> - (2 ^ 1023) \<le> t * real_of_int sample_rate"
  define w where "w = window_size sample_rate"
  have k: "\<bar>sample_rate\<bar> < 2 ^ 53" using assms by simp
  have w0: "0 \<le> w" using assms(1) by (simp add: w_def window_size_ge0)
  have x0: "t * real_of_int sample_rate \<le> 0"
    using a assms(1) by (simp add: mult_nonneg_nonpos2)
  then have "\<bar>t * real_of_int sample_rate\<bar> \<le> 2 ^ 1023" using a by simp
  from float_mul_int_finite [OF k this] obtain p where
    p: "float_mul_int (Finite t) sample_rate = Inr (Finite p)"
    and r: "round_double (t * real_of_int sample_rate) = Finite p" by blast
  from round_double_nonpos [OF x0 r] have "p \<le> 0" .
  then have c0: "py_trunc p \<le> 0" by (simp add: py_trunc_nonpos ceiling_le_iff)
  have ci: "center_idx (Finite t) sample_rate = Inr (py_trunc p)"
    using p by (rule center_idx_product)
  from c0 w0 have s: "start_idx (py_trunc p) sample_rate = 0"
    by (simp add: start_idx_def w_def [symmetric])
  have e: "end_idx audio_data 0 sample_rate = min (int (length audio_data)) w"
    by (simp add: end_idx_def w_def)
  have sl: "py_slice audio_data 0 (min (int (length audio_data)) w) = take (nat w) audio_data"
    using w0 py_slice_inside(1) [of 0 "min (int (length audio_data)) w" audio_data]
    by (simp add: min_def)
  show "audio_segment (Finite t) sample_rate audio_data =
            Inr (if min (int (length audio_data)) (window_size sample_rate) < 2 then placeholder
                 else take (nat (window_size sample_rate)) audio_data)"
    by (simp add: audio_segment_center [OF ci] s e sl w_def [symmetric])
qed

text \<open>
  The amended C2 at concrete inputs, on an eight-sample signal: \<open>t = 1/2\<close> is inside
  the audio, \<open>t = 10\<close> is beyond its end, \<open>t = 2^1023\<close> at 44100 Hz overflows the
  product, and \<open>t = -1\<close> is negative.
\<close>

theorem audio_segment_out_of_range_witness:
  "audio_segment (Finite (1 / 2)) 8 [1 / 2, - 1 / 2, 1 / 4, - 1 / 4, 1 / 8, - 1 / 8, 1 / 2, 1 / 2]
     \<noteq> Inl OverflowError
   \<and> audio_segment (Finite 10) 8 [1 / 2, - 1 / 2, 1 / 4, - 1 / 4, 1 / 8, - 1 / 8, 1 / 2, 1 / 2]
     = Inr placeholder
   \<and> audio_segment (Finite (2 ^ 1023)) 44100
        [1 / 2, - 1 / 2, 1 / 4, - 1 / 4, 1 / 8, - 1 / 8, 1 / 2, 1 / 2]
     = Inl OverflowError
   \<and> audio_segment (Finite (- 1)) 8 [1 / 2, - 1 / 2, 1 / 4, - 1 / 4, 1 / 8, - 1 / 8, 1 / 2, 1 / 2]
     = Inr [1 / 2, - 1 / 2, 1 / 4, - 1 / 4]"
proof -
  let ?a = "[1 / 2, - 1 / 2, 1 / 4, - 1 / 4, 1 / 8, - 1 / 8, 1 / 2, 1 / 2] :: real list"
  have r8: "(0 :: int) \<le> 8" "(8 :: int) < 2 ^ 53" by simp_all
  have r44: "(0 :: int) \<le> 44100" "(44100 :: int) < 2 ^ 53" by simp_all
  have w8: "window_size 8 = 4" by (simp add: window_size_small)
  from audio_segment_out_of_range [OF r8, of "1 / 2" 1 ?a]
  have 1: "audio_segment (Finite (1 / 2)) 8 ?a \<noteq> Inl OverflowError" by auto
  from audio_segment_out_of_range [OF r8, of 10 1 ?a]
  have 2: "audio_segment (Finite 10) 8 ?a = Inr placeholder" by (simp add: w8)
  from audio_segment_out_of_range [OF r44, of "2 ^ 1023" 1 ?a]
  have 3: "audio_segment (Finite (2 ^ 1023)) 44100 ?a = Inl OverflowError" by simp
  from audio_segment_out_of_range [OF r8, of "- 1" 1 ?a]
  have 4: "audio_segment (Finite (- 1)) 8 ?a = Inr [1 / 2, - 1 / 2, 1 / 4, - 1 / 4]"
    by (simp add: w8)
  from 1 2 3 4 show ?thesis by simp
qed

text \<open>
  Claim C3: for every finite timestamp, signal and sample rate (a sample rate is not
  negative), the window starts at \<open>max(0, center_idx - window_size // 2)\<close> and ends at
  \<open>min(signal_length, start + window_size)\<close>, so that the start is never negative and the
  end never exceeds the signal. When \<open>t * sample_rate < window_size / 2\<close> the start is 0:
  for the double product at every sample rate, and for the exact product at a sample rate
  below \<open>2^53\<close>, where half the window is a double that rounding cannot cross. When
  \<open>start + window_size > signal_length\<close> the end is the signal length.
\<close>

theorem window_bounds:
  assumes "0 \<le> sample_rate" and "center_idx (Finite t) sample_rate = Inr c"
  shows "start_idx c sample_rate = max 0 (c - window_size sample_rate div 2)
     \<and> end_idx audio_data (start_idx c sample_rate) sample_rate
         = min (int (length audio_data)) (start_idx c sample_rate + window_size sample_rate)
     \<and> 0 \<le> start_idx c sample_rate
     \<and> end_idx audio_data (start_idx c sample_rate) sample_rate \<le> int (length audio_data)
     \<and> (sample_rate < 2 ^ 53
          \<and> t * real_of_int sample_rate < real_of_int (window_size sample_rate) / 2
          \<longrightarrow> start_idx c sample_rate = 0)
     \<and> (\<forall>p. float_mul_int (Finite t) sample_rate = Inr (Finite p)
              \<and> p < real_of_int (window_size sample_rate) / 2
          \<longrightarrow> start_idx c sample_rate = 0)
     \<and> (int (length audio_data) < start_idx c sample_rate + window_size sample_rate
          \<longrightarrow> end_idx audio_data (start_idx c sample_rate) sample_rate = int (length audio_data))"
proof -
  define w where "w = window_size sample_rate"
  define x where "x = t * real_of_int sample_rate"
  have w0: "0 \<le> w" using assms(1) by (simp add: w_def window_size_ge0)
  from center_idx_FiniteD [OF assms(2)] obtain p where
    p: "float_mul_int (Finite t) sample_rate = Inr (Finite p)" and c: "c = py_trunc p" by blast
  have rounded: "c \<le> w div 2" if "p \<le> real_of_int w / 2"
    unfolding c using w0 that by (rule py_trunc_le_half)
  have exact: "c \<le> w div 2" if small: "sample_rate < 2 ^ 53" and lt: "x < real_of_int w / 2"
  proof -
    have k: "\<bar>sample_rate\<bar> < 2 ^ 53" using assms(1) small by simp
    have r: "round_double x = Finite p"
      using p by (simp add: float_mul_int_small [OF k] x_def)
    have w: "w = sample_rate div 2" using assms(1) small by (simp add: w_def window_size_small)
    have "p \<le> real_of_int w / 2"
    proof (cases "x \<le> 0")
      case True
      from round_double_nonpos [OF True r] w0 show ?thesis by simp
    next
      case False
      then have nz: "x \<noteq> 0" by simp
      have "w < 2 ^ 52" using w small by simp
      then have "real_of_int w < 2 ^ 52" by (simp add: of_int_less_numeral_power_cancel_iff)
      then have "\<bar>x\<bar> < 2 ^ 52" using lt False by simp
      from half_int_on_grid [OF nz this, of w] obtain n where
        n: "real_of_int w / 2 = real_of_int n * quantum x" by blast
      from round_double_le [OF nz _ r, of n] lt n show ?thesis by simp
    qed
    then show ?thesis by (rule rounded)
  qed
  have "\<forall>q. float_mul_int (Finite t) sample_rate = Inr (Finite q) \<and> q < real_of_int w / 2
          \<longrightarrow> c \<le> w div 2"
    using p rounded by auto
  then show ?thesis
    using exact by (auto simp add: start_idx_def end_idx_def w_def [symmetric] x_def [symmetric])
qed

text \<open>
  C3 at \<open>t = 1/8\<close>, 8 Hz and a three-sample signal: both clamps apply.
\<close>

theorem window_bounds_witness:
  "(0 :: int) \<le> 8 \<and> center_idx (Finite (1 / 8)) 8 = Inr 1
   \<and> 1 / 8 * real_of_int 8 < real_of_int (window_size 8) / 2
   \<and> start_idx 1 8 = 0
   \<and> int (length [1 / 2, - 1 / 2, 1 / 4 :: real]) < start_idx 1 8 + window_size 8
   \<and> end_idx [1 / 2, - 1 / 2, 1 / 4] (start_idx 1 8) 8 = 3"
proof -
  have h1: "(0 :: int) \<le> 8" by simp
  have h2: "center_idx (Finite (1 / 8)) 8 = Inr 1"
    by (rule center_idx_int_product) simp_all
  have w: "window_size 8 = 4" by (simp add: window_size_small)
  from window_bounds [OF h1 h2, of "[1 / 2, - 1 / 2, 1 / 4]"] h2 w show ?thesis by auto
qed

text \<open>
  Claim C4 says that the returned sequence has at least 2 and at most \<open>window_size\<close>
  samples. The placeholder has 2 samples also when the window is shorter than that: at
  2 Hz the window is 1 sample long and the placeholder, of length 2, is returned.
\<close>

theorem placeholder_exceeds_short_window:
  "audio_segment (Finite 0) 2 [1 / 2] = Inr [0, 0] \<and> window_size 2 = 1
     \<and> \<not> int (length [0 :: real, 0]) \<le> window_size 2"
proof -
  have "center_idx (Finite 0) 2 = Inr 0"
    by (rule center_idx_int_product) simp_all
  from audio_segment_center [OF this] show ?thesis
    by (simp add: start_idx_def end_idx_def window_size_small py_slice_def slice_index_def
        placeholder_def)
qed

text \<open>
  C4 as amended: for every \<open>t\<close> in \<open>[0, duration]\<close> and every signal (the empty one
  too), at a sample rate from 0 to below \<open>2^53\<close> and with \<open>duration * sample_rate\<close> at
  most \<open>2^1023\<close>, the windower returns a sequence of at least 2 and at most
  \<open>max(2, window_size)\<close> samples, and the placeholder whenever the selected slice has
  fewer than 2 samples.
\<close>

theorem audio_segment_length:
  assumes "0 \<le> t" and "t \<le> duration" and "duration * real_of_int sample_rate \<le> 2 ^ 1023"
    and "0 \<le> sample_rate" and "sample_rate < 2 ^ 53"
  shows "\<exists>c seg. center_idx (Finite t) sample_rate = Inr c
     \<and> audio_segment (Finite t) sample_rate audio_data = Inr seg
     \<and> 2 \<le> length seg
     \<and> int (length seg) \<le> max 2 (window_size sample_rate)
     \<and> (end_idx audio_data (start_idx c sample_rate) sample_rate - start_idx c sample_rate < 2
          \<longrightarrow> seg = placeholder)"
proof -
  from center_idx_in_range [OF assms] obtain c where
    1: "center_idx (Finite t) sample_rate = Inr c" by blast
  define s where "s = start_idx c sample_rate"
  define e where "e = end_idx audio_data s sample_rate"
  define seg where "seg = (if e - s < 2 then placeholder else py_slice audio_data s e)"
  have s0: "0 \<le> s" unfolding s_def by (rule start_idx_nonneg)
  have el: "e \<le> int (length audio_data)" unfolding e_def by (rule end_idx_le_length)
  have ew: "e - s \<le> window_size sample_rate" by (simp add: e_def end_idx_def)
  have len: "length seg = (if e - s < 2 then 2 else nat (e - s))"
    using py_slice_inside(2) [OF s0 _ el] by (simp add: seg_def placeholder_def)
  have 2: "audio_segment (Finite t) sample_rate audio_data = Inr seg"
    by (simp add: audio_segment_center [OF 1] seg_def e_def s_def)
  have 3: "2 \<le> length seg" unfolding len by auto
  have 4: "int (length seg) \<le> max 2 (window_size sample_rate)" using ew unfolding len by auto
  have 5: "e - s < 2 \<longrightarrow> seg = placeholder" by (simp add: seg_def)
  from 1 2 3 4 5 show ?thesis unfolding e_def s_def by blast
qed

text \<open>
  The amended C4 on a one-sample signal at 8 Hz: the slice has one sample and the
  placeholder replaces it.
\<close>

theorem audio_segment_length_witness:
  "audio_segment (Finite 0) 8 [1 / 2] = Inr placeholder"
proof -
  have c: "center_idx (Finite 0) 8 = Inr 0"
    by (rule center_idx_int_product) simp_all
  from audio_segment_length [of 0 1 8 "[1 / 2]"] c show ?thesis
    by (auto simp add: start_idx_def end_idx_def window_size_small)
qed

text \<open>
  Claim C10: when the selected slice has at least 2 samples, the windower returns
  exactly \<open>audio_data[start:end]\<close>: \<open>end - start\<close> samples, the \<open>i\<close>-th of which is
  sample \<open>start + i\<close> of the signal.
\<close>

theorem audio_segment_is_slice:
  assumes "center_idx (Finite t) sample_rate = Inr c"
    and "s = start_idx c sample_rate"
    and "e = end_idx audio_data s sample_rate"
    and "2 \<le> e - s"
  shows "\<exists>seg. audio_segment (Finite t) sample_rate audio_data = Inr seg
     \<and> seg = py_slice audio_data s e
     \<and> seg = take (nat (e - s)) (drop (nat s) audio_data)
     \<and> length seg = nat (e - s)
     \<and> (\<forall>i < nat (e - s). seg ! i = audio_data ! (nat s + i))"
proof -
  have s0: "0 \<le> s" unfolding assms(2) by (rule start_idx_nonneg)
  have el: "e \<le> int (length audio_data)" unfolding assms(3) by (rule end_idx_le_length)
  have se: "s \<le> e" using assms(4) by simp
  note sl = py_slice_inside [OF s0 se el]
  have seg: "audio_segment (Finite t) sample_rate audio_data = Inr (py_slice audio_data s e)"
    using assms(4) by (simp add: audio_segment_center [OF assms(1)] assms(2,3) [symmetric])
  have nth: "\<forall>i < nat (e - s). py_slice audio_data s e ! i = audio_data ! (nat s + i)"
    using s0 se el by (simp add: sl(1))
  from seg sl nth show ?thesis by simp
qed

text \<open>
  C10 at \<open>t = 1/2\<close>, 8 Hz and eight samples: the window is \<open>audio_data[2:6]\<close>.
\<close>

theorem audio_segment_is_slice_witness:
  "audio_segment (Finite (1 / 2)) 8 [1 / 2, - 1 / 2, 1 / 4, - 1 / 4, 1 / 8, - 1 / 8, 1 / 2, 1 / 2]
     = Inr [1 / 4, - 1 / 4, 1 / 8, - 1 / 8]"
proof -
  have c: "center_idx (Finite (1 / 2)) 8 = Inr 4"
    by (rule center_idx_int_product) simp_all
  from audio_segment_is_slice
      [where t = "1 / 2" and sample_rate = 8 and c = 4 and s = 2 and e = 6
         and audio_data = "[1 / 2, - 1 / 2, 1 / 4, - 1 / 4, 1 / 8, - 1 / 8, 1 / 2, 1 / 2]"] c
  show ?thesis by (simp add: start_idx_def end_idx_def window_size_small)
qed

section \<open>Claims about the frame function\<close>

text \<open>
  Claim C5: for every timestamp, sample rate (and so window length), render style and
  resolution that is not negative (the command offers 480, 720 and 1080), \<open>make_frame\<close>
  returns a frame, and its shape is \<open>(resolution, resolution, 3)\<close>, with
  \<open>resolution * resolution * 3\<close> elements, whether the body of the \<open>try\<close> succeeded or
  the handler replaced it. Two frames of one session, at any two timestamps and in any two
  states of the process, have the same shape.
\<close>

theorem frame_dimensions:
  assumes "0 \<le> resolution"
  shows "\<exists>fr fr'.
      fst (make_frame B audio_data sample_rate waveform_type resolution waveform_color t w) = Inr fr
    \<and> fst (make_frame B audio_data sample_rate' waveform_type resolution waveform_color t' w') = Inr fr'
    \<and> shape fr = (nat resolution, nat resolution, 3)
    \<and> length (data fr) = nat resolution * nat resolution * 3
    \<and> shape fr' = shape fr"
proof -
  have one: "\<exists>fr. fst (make_frame B audio_data sr waveform_type resolution waveform_color u v) = Inr fr
      \<and> shape fr = (nat resolution, nat resolution, 3)
      \<and> length (data fr) = nat resolution * nat resolution * 3" for sr u v
  proof (cases "pure_frame B audio_data sr waveform_type resolution waveform_color u")
    case (Inl e)
    then show ?thesis using assms by (simp add: make_frame_fst np_zeros_shape)
  next
    case (Inr img)
    then show ?thesis using pure_frame_shape [OF Inr] by (simp add: make_frame_fst)
  qed
  from one [of sample_rate t w] one [of sample_rate' t' w'] show ?thesis by auto
qed

text \<open>
  C5 at resolution 8, for a finite timestamp and for a NaN, on which \<open>int()\<close> raises
  and the handler answers.
\<close>

theorem frame_dimensions_witness:
  "(0 :: int) \<le> 8
   \<and> (\<exists>fr fr'. fst (make_frame example_backend example_audio 8 ''mirror'' 8 ''#FF4500'' (Finite 0)
                      empty_world) = Inr fr
        \<and> fst (make_frame example_backend example_audio 8 ''mirror'' 8 ''#FF4500'' NaN
                      empty_world) = Inr fr'
        \<and> shape fr = (8, 8, 3) \<and> length (data fr) = 192 \<and> shape fr' = shape fr)"
  using frame_dimensions [of 8 example_backend example_audio 8 "''mirror''" "''#FF4500''"
      "Finite 0" empty_world 8 NaN empty_world]
  by simp

text \<open>
  Claim C6: when the body of the \<open>try\<close> raises an exception \<open>e\<close> (in the windowing, in
  matplotlib or in Pillow), \<open>make_frame\<close> does not raise: it prints the exception with
  the timestamp and returns the all-zero frame of shape \<open>(resolution, resolution, 3)\<close>.
\<close>

theorem frame_error_gives_black_frame:
  assumes "0 \<le> resolution"
    and "make_frame_body B audio_data sample_rate waveform_type resolution waveform_color t w
           = (Inl e, w')"
  shows "make_frame B audio_data sample_rate waveform_type resolution waveform_color t w
      = (Inr \<lparr>shape = (nat resolution, nat resolution, 3),
               data = replicate (nat resolution * nat resolution * 3) 0\<rparr>,
         w'\<lparr>stdout := stdout w' @ [FrameError t e]\<rparr>)"
  using assms by (simp add: make_frame_def io_bind_def print_def io_lift_def np_zeros_shape)

text \<open>
  C6 with libraries whose \<open>savefig\<close> raises: the frame is black, 8 by 8 by 3, and the
  error is the one line printed.
\<close>

theorem frame_error_gives_black_frame_witness:
  "(0 :: int) \<le> 8
   \<and> fst (make_frame_body failing_backend example_audio 8 ''mirror'' 8 ''#FF4500'' (Finite 0)
            empty_world) = Inl (ExternalError ''savefig'')
   \<and> fst (make_frame failing_backend example_audio 8 ''mirror'' 8 ''#FF4500'' (Finite 0)
            empty_world) = Inr \<lparr>shape = (8, 8, 3), data = replicate 192 0\<rparr>
   \<and> stdout (snd (make_frame failing_backend example_audio 8 ''mirror'' 8 ''#FF4500'' (Finite 0)
            empty_world)) = [FrameError (Finite 0) (ExternalError ''savefig'')]"
proof -
  let ?b = "make_frame_body failing_backend example_audio 8 ''mirror'' 8 ''#FF4500'' (Finite 0)
            empty_world"
  have c: "center_idx (Finite 0) 8 = Inr 0"
    by (rule center_idx_int_product) simp_all
  have seg: "audio_segment (Finite 0) 8 example_audio = Inr [1 / 2, - 1 / 2, 1 / 4, - 1 / 4]"
    by (simp add: audio_segment_center [OF c] start_idx_def end_idx_def window_size_small
        py_slice_def slice_index_def example_audio_def placeholder_def)
  have f: "fst ?b = Inl (ExternalError ''savefig'')"
    by (simp add: make_frame_body_pure pure_frame_def seg Let_def
        waveform_figure_def failing_backend_def example_backend_def)
  then have h: "?b = (Inl (ExternalError ''savefig''), snd ?b)"
    by (simp add: prod_eq_iff)
  have s: "stdout (snd ?b) = []"
    by (simp add: make_frame_body_def io_bind_def io_lift_def seg Let_def
        plt_figure_def plt_axis_off_def gcf_def update_figure_def fig_patch_set_alpha_def
        draw_waveform_def plt_fill_between_def add_artist_def plt_ylim_def plt_savefig_def
        failing_backend_def example_backend_def empty_world_def)
  have r: "(0 :: int) \<le> 8" by simp
  from frame_error_gives_black_frame [OF r h] f s show ?thesis by simp
qed

text \<open>
  Claim C8: for each of the three render styles and every sample window, once the plot
  has been drawn without an exception the y-axis range of the current figure is the
  constant \<open>(-0.8, 0.8)\<close>, whatever the samples are.
\<close>

theorem ylim_fixed:
  assumes "waveform_type \<in> {''simple'', ''mirror'', ''line''}"
    and "draw_waveform B waveform_type waveform_color x seg w = (Inr u, w')"
  shows "plt_figs w' \<noteq> [] \<and> ylim (snd (last (plt_figs w'))) = Some (- (8 / 10), 8 / 10)"
proof -
  from assms have "\<exists>m :: unit io.
      io_bind m (\<lambda>_. plt_ylim B (- (8 / 10)) (8 / 10)) w = (Inr u, w')"
    unfolding draw_waveform_def by (auto split: if_splits)
  then obtain m :: "unit io" where
    "io_bind m (\<lambda>_. plt_ylim B (- (8 / 10)) (8 / 10)) w = (Inr u, w')"
    by blast
  then obtain w1 where "plt_ylim B (- (8 / 10)) (8 / 10) w1 = (Inr u, w')"
    by (rule io_bind_Inr_elim)
  then show ?thesis by (rule plt_ylim_sets)
qed

text \<open>
  C8 on the samples 3 and -5, far outside the range: the limits stay \<open>(-0.8, 0.8)\<close>.
\<close>

theorem ylim_fixed_witness:
  "''mirror'' \<in> {''simple'', ''mirror'', ''line''}
   \<and> fst (draw_waveform example_backend ''mirror'' ''#FF4500'' [0, 1] [3, - 5] empty_world) = Inr ()
   \<and> ylim (snd (last (plt_figs (snd (draw_waveform example_backend ''mirror'' ''#FF4500'' [0, 1]
                                        [3, - 5] empty_world)))))
       = Some (- (8 / 10), 8 / 10)"
proof -
  let ?d = "draw_waveform example_backend ''mirror'' ''#FF4500'' [0, 1] [3, - 5] empty_world"
  have m: "''mirror'' \<in> {''simple'', ''mirror'', ''line''}" by simp
  have f: "fst ?d = Inr ()"
    by (simp add: draw_waveform_def io_bind_def plt_fill_between_def add_artist_def gcf_def
        plt_figure_def update_figure_def plt_ylim_def Let_def example_backend_def empty_world_def)
  then have h: "?d = (Inr (), snd ?d)" by (simp add: prod_eq_iff)
  from ylim_fixed [OF m h] f show ?thesis by simp
qed

text \<open>
  Claim C9: the frame that \<open>make_frame\<close> returns is determined by the timestamp, the
  signal, the sample rate, the style, the resolution and the colour (and by the libraries,
  taken as functions): two invocations with the same inputs return the same frame in
  whatever two states of the process they run, so that nothing a previous frame left
  behind (open figures, printed lines) reaches the pixels.
\<close>

theorem frame_independent_of_world:
  "fst (make_frame B audio_data sample_rate waveform_type resolution waveform_color t w1)
     = fst (make_frame B audio_data sample_rate waveform_type resolution waveform_color t w2)"
  by (simp add: make_frame_fst)

section \<open>Claims about the command\<close>



end
